theory Spec2Isabelle
  imports Main
begin

section \<open>The platform: paths, the file system, the clock and the random source\<close>

text \<open>
  The program is a Node.js (ESM) class \<open>AgentBackup\<close>. Its own code is embedded
  function by function further down; this section models the platform functions it
  calls. A JavaScript string is modelled by the bytes of its UTF-8 encoding (type
  \<open>string\<close>), so reading a file as \<open>'utf8'\<close> and writing a string back are
  both the identity on contents; files are taken to hold valid UTF-8.
\<close>

subsection \<open>\<open>path.join\<close>, \<open>path.resolve\<close>\<close>

text \<open>A path string is cut at every \<open>/\<close>: \<open>a/b\<close> gives \<open>[a, b]\<close>,
  \<open>/a\<close> gives \<open>[[], a]\<close>, \<open>a/\<close> gives \<open>[a, []]\<close>.\<close>

fun split_path :: "string \<Rightarrow> string list" where
  "split_path [] = [[]]"
| "split_path (c # cs) =
     (if c = CHR ''/'' then [] # split_path cs
      else (case split_path cs of [] \<Rightarrow> [[c]] | s # ss \<Rightarrow> (c # s) # ss))"

fun unsplit :: "string list \<Rightarrow> string" where
  "unsplit [] = []"
| "unsplit [s] = s"
| "unsplit (s # t # ss) = s @ ''/'' @ unsplit (t # ss)"

text \<open>Node's \<open>normalizeString\<close>, one path segment at a time; \<open>res\<close> is the result
  so far, last segment first. Empty segments and \<open>.\<close> are dropped; \<open>..\<close> removes
  the last segment, or is kept (only when \<open>allowAboveRoot\<close>) if there is none to
  remove.\<close>

fun normalize_step :: "bool \<Rightarrow> string list \<Rightarrow> string \<Rightarrow> string list" where
  "normalize_step allowAboveRoot res seg =
     (if seg = [] \<or> seg = ''.'' then res
      else if seg = ''..'' then
        (case res of
           [] \<Rightarrow> if allowAboveRoot then [''..''] else []
         | lastSeg # rest \<Rightarrow>
             if lastSeg = ''..'' then (if allowAboveRoot then ''..'' # res else res) else rest)
      else seg # res)"

definition normalizeString :: "string list \<Rightarrow> bool \<Rightarrow> string list" where
  "normalizeString segs allowAboveRoot = rev (foldl (normalize_step allowAboveRoot) [] segs)"

definition isAbsolute :: "string \<Rightarrow> bool" where
  "isAbsolute p = (case p of [] \<Rightarrow> False | c # _ \<Rightarrow> c = CHR ''/'')"

definition trailing_slash :: "string \<Rightarrow> bool" where
  "trailing_slash p = (p \<noteq> [] \<and> last p = CHR ''/'')"

definition normalize :: "string \<Rightarrow> string" where
  "normalize p =
     (if p = [] then ''.''
      else
        let s = unsplit (normalizeString (split_path p) (\<not> isAbsolute p)) in
        if s = [] then (if isAbsolute p then ''/'' else if trailing_slash p then ''./'' else ''.'')
        else (if isAbsolute p then ''/'' else []) @ s @ (if trailing_slash p then ''/'' else []))"

text \<open>\<open>path.join(a, b)\<close>: the non-empty arguments, joined by \<open>/\<close>, normalised.\<close>

definition join :: "string \<Rightarrow> string \<Rightarrow> string" where
  "join a b =
     (case filter (\<lambda>s. s \<noteq> []) [a, b] of
        [] \<Rightarrow> ''.''
      | parts \<Rightarrow> normalize (unsplit parts))"

text \<open>\<open>path.resolve(a, b)\<close> with the process's working directory \<open>wd\<close>: the
  arguments are taken from the right until the path is absolute, \<open>wd\<close> last.\<close>

fun resolve_step :: "string \<times> bool \<Rightarrow> string \<Rightarrow> string \<times> bool" where
  "resolve_step (resolvedPath, resolvedAbsolute) p =
     (if resolvedAbsolute \<or> p = [] then (resolvedPath, resolvedAbsolute)
      else (p @ ''/'' @ resolvedPath, isAbsolute p))"

definition resolve :: "string \<Rightarrow> string \<Rightarrow> string \<Rightarrow> string" where
  "resolve wd a b =
     (case foldl resolve_step ([], False) [b, a, wd] of
        (resolvedPath, resolvedAbsolute) \<Rightarrow>
          let s = unsplit (normalizeString (split_path resolvedPath) (\<not> resolvedAbsolute)) in
          if resolvedAbsolute then ''/'' @ s
          else if s \<noteq> [] then s else ''.'')"

subsection \<open>The file system\<close>

text \<open>
  A tree of directories and regular files, addressed by the list of names from the root.
  There are no symbolic links and no permissions: an operation fails only for the
  reasons below.
\<close>

datatype node = File string | Dir

datatype errno = ENOENT | ENOTDIR | EISDIR | EEXIST

datatype warning =
    FailedToReadCredential string errno
  | FailedToReadMemory string errno
  | SkippingExistingFile string

record world =
  nodes :: "string list \<Rightarrow> node option"
  cwd :: string
  console :: "warning list"
  clock :: "nat \<Rightarrow> string"
  ticks :: nat
  entropy :: "nat \<Rightarrow> char"
  drawn :: nat

text \<open>The root is a directory.\<close>

definition node_at :: "(string list \<Rightarrow> node option) \<Rightarrow> string list \<Rightarrow> node option" where
  "node_at m k = (if k = [] then Some Dir else m k)"

text \<open>What the operating system does with a path string: a relative path starts at
  the working directory, and the root's parent is the root.\<close>

definition fs_key :: "world \<Rightarrow> string \<Rightarrow> string list" where
  "fs_key w p =
     normalizeString (split_path (if isAbsolute p then p else cwd w @ ''/'' @ p)) False"

text \<open>Walking from the directory \<open>pre\<close> down the names \<open>ks\<close>.\<close>

fun lookup :: "(string list \<Rightarrow> node option) \<Rightarrow> string list \<Rightarrow> string list \<Rightarrow> errno + node" where
  "lookup m pre [] = (case node_at m pre of None \<Rightarrow> Inl ENOENT | Some n \<Rightarrow> Inr n)"
| "lookup m pre (k # ks) =
     (case node_at m pre of
        None \<Rightarrow> Inl ENOENT
      | Some (File _) \<Rightarrow> Inl ENOTDIR
      | Some Dir \<Rightarrow> lookup m (pre @ [k]) ks)"

text \<open>\<open>fs.readFile(p)\<close>.\<close>

definition readFile :: "world \<Rightarrow> string \<Rightarrow> errno + string" where
  "readFile w p =
     (if p = [] then Inl ENOENT
      else
        (case lookup (nodes w) [] (fs_key w p) of
           Inl e \<Rightarrow> Inl e
         | Inr Dir \<Rightarrow> Inl EISDIR
         | Inr (File c) \<Rightarrow> if trailing_slash p then Inl ENOTDIR else Inr c))"

text \<open>\<open>fs.mkdir(p, {recursive: true})\<close>: every missing directory on the way is
  created; the ones made before a failure stay.\<close>

fun mkdirs :: "(string list \<Rightarrow> node option) \<Rightarrow> string list \<Rightarrow> string list
    \<Rightarrow> errno option \<times> (string list \<Rightarrow> node option)" where
  "mkdirs m pre [] = (None, m)"
| "mkdirs m pre (k # ks) =
     (case node_at m (pre @ [k]) of
        None \<Rightarrow> mkdirs (m(pre @ [k] \<mapsto> Dir)) (pre @ [k]) ks
      | Some Dir \<Rightarrow> mkdirs m (pre @ [k]) ks
      | Some (File _) \<Rightarrow> (Some (if ks = [] then EEXIST else ENOTDIR), m))"

definition mkdir_recursive :: "string \<Rightarrow> world \<Rightarrow> errno option \<times> world" where
  "mkdir_recursive p w =
     (if p = [] then (Some ENOENT, w)
      else
        (case mkdirs (nodes w) [] (fs_key w p) of
           (r, m) \<Rightarrow> (r, w\<lparr>nodes := m\<rparr>)))"

text \<open>\<open>fs.writeFile(p, data)\<close>: creates the file or replaces its content; the
  directory it lies in must exist.\<close>

definition writeFile :: "string \<Rightarrow> string \<Rightarrow> world \<Rightarrow> errno option \<times> world" where
  "writeFile p data w =
     (let k = fs_key w p in
      if p = [] then (Some ENOENT, w)
      else if k = [] then (Some EISDIR, w)
      else
        (case lookup (nodes w) [] (butlast k) of
           Inl e \<Rightarrow> (Some e, w)
         | Inr (File _) \<Rightarrow> (Some ENOTDIR, w)
         | Inr Dir \<Rightarrow>
             (case nodes w k of
                Some Dir \<Rightarrow> (Some EISDIR, w)
              | Some (File _) \<Rightarrow>
                  if trailing_slash p then (Some ENOTDIR, w)
                  else (None, w\<lparr>nodes := (nodes w)(k \<mapsto> File data)\<rparr>)
              | None \<Rightarrow>
                  if trailing_slash p then (Some EISDIR, w)
                  else (None, w\<lparr>nodes := (nodes w)(k \<mapsto> File data)\<rparr>))))"

subsection \<open>\<open>new Date().toISOString()\<close>, \<open>crypto.randomBytes\<close>, \<open>console.warn\<close>\<close>

text \<open>The \<open>n\<close>-th reading of the clock is \<open>clock w n\<close>; the random source is a
  stream of bytes, read in order.\<close>

definition now :: "world \<Rightarrow> string \<times> world" where
  "now w = (clock w (ticks w), w\<lparr>ticks := Suc (ticks w)\<rparr>)"

definition randomBytes :: "nat \<Rightarrow> world \<Rightarrow> string \<times> world" where
  "randomBytes n w = (map (entropy w) [drawn w ..< drawn w + n], w\<lparr>drawn := drawn w + n\<rparr>)"

definition warn :: "warning \<Rightarrow> world \<Rightarrow> world" where
  "warn x w = w\<lparr>console := console w @ [x]\<rparr>"

subsection \<open>Hexadecimal text\<close>

text \<open>\<open>buf.toString('hex')\<close> writes two lower-case digits per byte.
  \<open>Buffer.from(s, 'hex')\<close> reads pairs of digits of either case and stops, without
  an error, at the first pair that is not two digits (or at a last single character).\<close>

definition hex_digit :: "nat \<Rightarrow> char" where
  "hex_digit n = ''0123456789abcdef'' ! n"

definition toString_hex :: "string \<Rightarrow> string" where
  "toString_hex buf =
     concat (map (\<lambda>c. [hex_digit (of_char c div 16), hex_digit (of_char c mod 16)]) buf)"

definition unhex :: "char \<Rightarrow> nat option" where
  "unhex c =
     (let n = (of_char c :: nat) in
      if 48 \<le> n \<and> n \<le> 57 then Some (n - 48)
      else if 97 \<le> n \<and> n \<le> 102 then Some (n - 87)
      else if 65 \<le> n \<and> n \<le> 70 then Some (n - 55)
      else None)"

fun Buffer_from_hex :: "string \<Rightarrow> string" where
  "Buffer_from_hex (a # b # rest) =
     (case (unhex a, unhex b) of
        (Some x, Some y) \<Rightarrow> char_of (16 * x + y) # Buffer_from_hex rest
      | _ \<Rightarrow> [])"
| "Buffer_from_hex _ = []"

section \<open>The data model\<close>

text \<open>The backup format, as \<open>export\<close> builds it. A field that JavaScript may leave
  \<open>undefined\<close> has an option type; the archive's \<open>encrypted\<close> flag is \<open>False\<close>
  when the property is absent. A section is either \<open>{files: [...]}\<close> or the object
  \<open>_encrypt\<close> returns, whose \<open>encrypted: true\<close> is the constructor.\<close>

record file_record =
  path :: string
  content :: string
  updated :: string

record cipher_section =
  algorithm :: string
  iv :: string
  salt :: string
  authTag :: string
  data :: string

datatype file_section = Plain "file_record list option" | Encrypted cipher_section

record agent_identity =
  name :: "string option"
  email :: "string option"
  metadata :: "(string \<times> string) list"
  created :: string

record archive =
  version :: string
  exported :: string
  agent :: agent_identity
  credentials :: file_section
  memory :: file_section
  platforms :: "(string \<times> string) list"
  encrypted :: bool

text \<open>The \<open>files\<close> property of a section (\<open>undefined\<close> on an encrypted one).\<close>

definition files :: "file_section \<Rightarrow> file_record list option" where
  "files s = (case s of Plain fs \<Rightarrow> fs | Encrypted _ \<Rightarrow> None)"

text \<open>The instance: \<open>this.workdir\<close>, \<open>this.encryption\<close>, \<open>this.password\<close>.\<close>

record agent_backup =
  workdir :: string
  encryption :: bool
  password :: "string option"

record options =
  options_workdir :: "string option"
  options_encryption :: bool
  options_password :: "string option"

text \<open>A string is truthy unless it is \<open>undefined\<close>, \<open>null\<close> or empty.\<close>

definition truthy :: "string option \<Rightarrow> bool" where
  "truthy x = (case x of None \<Rightarrow> False | Some s \<Rightarrow> s \<noteq> [])"

text \<open>\<open>x || y\<close> on strings.\<close>

definition or_else :: "string option \<Rightarrow> string \<Rightarrow> string" where
  "or_else x y = (case x of None \<Rightarrow> y | Some s \<Rightarrow> if s \<noteq> [] then s else y)"

definition new_AgentBackup :: "options \<Rightarrow> world \<Rightarrow> agent_backup" where
  "new_AgentBackup opts w =
     \<lparr>workdir = or_else (options_workdir opts) (cwd w),
      encryption = options_encryption opts,
      password = (if truthy (options_password opts) then options_password opts else None)\<rparr>"

record export_args =
  args_name :: "string option"
  args_email :: "string option"
  args_metadata :: "(string \<times> string) list"
  credentialsPaths :: "string list"
  memoryPaths :: "string list"

record import_options =
  overwrite :: bool
  targetDir :: "string option"

record import_result =
  result_agent :: agent_identity
  restored_credentials :: nat
  restored_memory :: nat

datatype error =
    UnsupportedBackupVersion string
  | NoPasswordProvided
  | TypeError
  | DecipherError
  | SyntaxError
  | SystemError errno

subsection \<open>The library functions the class is given\<close>

text \<open>
  SHA-256, AES-256-GCM and the JSON codec are not part of the repository. The class's
  functions take them as a parameter \<open>L\<close>: \<open>sha256 L s\<close> is the digest of
  \<open>s\<close>; \<open>aes_256_gcm_encrypt L key iv plaintext\<close> is the ciphertext and the
  authentication tag; \<open>aes_256_gcm_decrypt L key iv tag ciphertext\<close> is the plaintext,
  or \<open>None\<close> where Node's decipher throws (a key, IV or tag it refuses, or a tag that
  does not authenticate); \<open>JSON_parse L\<close> is \<open>None\<close> where \<open>JSON.parse\<close> throws.
\<close>

record library =
  sha256 :: "string \<Rightarrow> string"
  aes_256_gcm_encrypt :: "string \<Rightarrow> string \<Rightarrow> string \<Rightarrow> string \<times> string"
  aes_256_gcm_decrypt :: "string \<Rightarrow> string \<Rightarrow> string \<Rightarrow> string \<Rightarrow> string option"
  JSON_stringify :: "file_section \<Rightarrow> string"
  JSON_parse :: "string \<Rightarrow> file_section option"
  JSON_stringify_agent_exported :: "agent_identity \<Rightarrow> string \<Rightarrow> string"

section \<open>The class \<open>AgentBackup\<close>\<close>

definition BACKUP_VERSION :: string where
  "BACKUP_VERSION = ''1.0''"

definition ALGORITHM :: string where
  "ALGORITHM = ''aes-256-gcm''"

subsection \<open>\<open>_collectCredentials\<close>, \<open>_collectMemory\<close>\<close>

text \<open>The \<open>for\<close> loop over \<open>paths\<close>, with the array \<open>files\<close> it pushes to.
  A read that throws is caught: a warning is printed and the loop goes on.\<close>

fun collectCredentials_loop ::
  "agent_backup \<Rightarrow> string list \<Rightarrow> file_record list \<Rightarrow> world \<Rightarrow> file_record list \<times> world" where
  "collectCredentials_loop this [] fs w = (fs, w)"
| "collectCredentials_loop this (p # ps) fs w =
     (case readFile w (resolve (cwd w) (workdir this) p) of
        Inr c \<Rightarrow>
          (case now w of
             (t, w') \<Rightarrow>
               collectCredentials_loop this ps (fs @ [\<lparr>path = p, content = c, updated = t\<rparr>]) w')
      | Inl e \<Rightarrow> collectCredentials_loop this ps fs (warn (FailedToReadCredential p e) w))"

definition collectCredentials :: "agent_backup \<Rightarrow> string list \<Rightarrow> world \<Rightarrow> file_section \<times> world" where
  "collectCredentials this paths w =
     (case collectCredentials_loop this paths [] w of (fs, w') \<Rightarrow> (Plain (Some fs), w'))"

fun collectMemory_loop ::
  "agent_backup \<Rightarrow> string list \<Rightarrow> file_record list \<Rightarrow> world \<Rightarrow> file_record list \<times> world" where
  "collectMemory_loop this [] fs w = (fs, w)"
| "collectMemory_loop this (p # ps) fs w =
     (case readFile w (resolve (cwd w) (workdir this) p) of
        Inr c \<Rightarrow>
          (case now w of
             (t, w') \<Rightarrow>
               collectMemory_loop this ps (fs @ [\<lparr>path = p, content = c, updated = t\<rparr>]) w')
      | Inl e \<Rightarrow> collectMemory_loop this ps fs (warn (FailedToReadMemory p e) w))"

definition collectMemory :: "agent_backup \<Rightarrow> string list \<Rightarrow> world \<Rightarrow> file_section \<times> world" where
  "collectMemory this paths w =
     (case collectMemory_loop this paths [] w of (fs, w') \<Rightarrow> (Plain (Some fs), w'))"

subsection \<open>\<open>_deriveKey\<close>, \<open>_encrypt\<close>, \<open>_decrypt\<close>\<close>

text \<open>\<open>this.password\<close> in a string concatenation: \<open>null\<close> reads \<open>null\<close>.\<close>

definition password_text :: "agent_backup \<Rightarrow> string" where
  "password_text this = (case password this of None \<Rightarrow> ''null'' | Some s \<Rightarrow> s)"

definition deriveKey :: "library \<Rightarrow> string \<Rightarrow> string \<Rightarrow> string" where
  "deriveKey L pw salt_bytes = sha256 L (pw @ toString_hex salt_bytes)"

definition encrypt :: "library \<Rightarrow> agent_backup \<Rightarrow> file_section \<Rightarrow> world \<Rightarrow> file_section \<times> world" where
  "encrypt L this section w =
     (case randomBytes 16 w of
        (iv_bytes, w1) \<Rightarrow>
          (case randomBytes 32 w1 of
             (salt_bytes, w2) \<Rightarrow>
               (case aes_256_gcm_encrypt L (deriveKey L (password_text this) salt_bytes) iv_bytes
                       (JSON_stringify L section) of
                  (ciphertext, tag) \<Rightarrow>
                    (Encrypted
                       \<lparr>algorithm = ALGORITHM,
                        iv = toString_hex iv_bytes,
                        salt = toString_hex salt_bytes,
                        authTag = toString_hex tag,
                        data = toString_hex ciphertext\<rparr>, w2))))"

text \<open>On a section without the five fields, \<open>Buffer.from(undefined, 'hex')\<close> throws a
  TypeError.\<close>

definition decrypt :: "library \<Rightarrow> agent_backup \<Rightarrow> file_section \<Rightarrow> error + file_section" where
  "decrypt L this section =
     (case section of
        Plain _ \<Rightarrow> Inl TypeError
      | Encrypted e \<Rightarrow>
          (case aes_256_gcm_decrypt L
                  (deriveKey L (password_text this) (Buffer_from_hex (salt e)))
                  (Buffer_from_hex (iv e)) (Buffer_from_hex (authTag e)) (Buffer_from_hex (data e)) of
             None \<Rightarrow> Inl DecipherError
           | Some decrypted \<Rightarrow>
               (case JSON_parse L decrypted of
                  None \<Rightarrow> Inl SyntaxError
                | Some v \<Rightarrow> Inr v)))"

subsection \<open>\<open>export\<close>\<close>

definition export :: "library \<Rightarrow> agent_backup \<Rightarrow> export_args \<Rightarrow> world \<Rightarrow> archive \<times> world" where
  "export L this args w =
     (case now w of
        (exported_at, w1) \<Rightarrow>
          (case (case map_of (args_metadata args) ''created'' of
                   None \<Rightarrow> now w1
                 | Some s \<Rightarrow> if s \<noteq> [] then (s, w1) else now w1) of
             (created_at, w2) \<Rightarrow>
               (case collectCredentials this (credentialsPaths args) w2 of
                  (creds, w3) \<Rightarrow>
                    (case collectMemory this (memoryPaths args) w3 of
                       (mem, w4) \<Rightarrow>
                         (let backup =
                            \<lparr>version = BACKUP_VERSION,
                             exported = exported_at,
                             agent =
                               \<lparr>name = args_name args,
                                email = args_email args,
                                metadata = args_metadata args,
                                created = created_at\<rparr>,
                             credentials = creds,
                             memory = mem,
                             platforms = [],
                             encrypted = False\<rparr>
                          in
                          if encryption this \<and> truthy (password this) then
                            (case encrypt L this (credentials backup) w4 of
                               (creds', w5) \<Rightarrow>
                                 (case encrypt L this (memory backup) w5 of
                                    (mem', w6) \<Rightarrow>
                                      (backup\<lparr>credentials := creds', memory := mem',
                                              encrypted := True\<rparr>, w6)))
                          else (backup, w4))))))"

subsection \<open>\<open>import\<close>\<close>

text \<open>The body of the two restoring loops (the source has the same text twice, once for
  \<open>credentials.files\<close> and once for \<open>memory.files\<close>). An error of \<open>mkdir\<close> or
  \<open>writeFile\<close> is not caught: it ends the import.\<close>

definition restore_file :: "bool \<Rightarrow> string \<Rightarrow> file_record \<Rightarrow> world \<Rightarrow> error option \<times> world" where
  "restore_file ov dir f w =
     (let p = join dir (path f) in
      if \<not> ov \<and> \<not> isl (readFile w p) then (None, warn (SkippingExistingFile (path f)) w)
      else
        (case mkdir_recursive (join p ''..'') w of
           (Some e, w1) \<Rightarrow> (Some (SystemError e), w1)
         | (None, w1) \<Rightarrow>
             (case writeFile p (content f) w1 of
                (Some e, w2) \<Rightarrow> (Some (SystemError e), w2)
              | (None, w2) \<Rightarrow> (None, w2))))"

fun restore_files :: "bool \<Rightarrow> string \<Rightarrow> file_record list \<Rightarrow> world \<Rightarrow> error option \<times> world" where
  "restore_files ov dir [] w = (None, w)"
| "restore_files ov dir (f # fs) w =
     (case restore_file ov dir f w of
        (Some e, w') \<Rightarrow> (Some e, w')
      | (None, w') \<Rightarrow> restore_files ov dir fs w')"

text \<open>\<open>if (section.files) { for (const file of section.files) ... }\<close>\<close>

definition restore_section :: "bool \<Rightarrow> string \<Rightarrow> file_section \<Rightarrow> world \<Rightarrow> error option \<times> world" where
  "restore_section ov dir section w =
     (case files section of None \<Rightarrow> (None, w) | Some fs \<Rightarrow> restore_files ov dir fs w)"

text \<open>\<open>section.files?.length || 0\<close>\<close>

definition files_length :: "file_section \<Rightarrow> nat" where
  "files_length section = (case files section of None \<Rightarrow> 0 | Some fs \<Rightarrow> length fs)"

text \<open>The first part of \<open>import\<close>, after the version check: the two sections as
  they are, or decrypted when the archive says \<open>encrypted\<close>.\<close>

definition decrypted_sections ::
  "library \<Rightarrow> agent_backup \<Rightarrow> archive \<Rightarrow> error + file_section \<times> file_section" where
  "decrypted_sections L this backup =
     (if encrypted backup then
        (if \<not> truthy (password this) then Inl NoPasswordProvided
         else
           (case decrypt L this (credentials backup) of
              Inl e \<Rightarrow> Inl e
            | Inr c \<Rightarrow>
                (case decrypt L this (memory backup) of
                   Inl e \<Rightarrow> Inl e
                 | Inr m \<Rightarrow> Inr (c, m))))
      else Inr (credentials backup, memory backup))"

definition import ::
  "library \<Rightarrow> agent_backup \<Rightarrow> archive \<Rightarrow> import_options \<Rightarrow> world \<Rightarrow> (error + import_result) \<times> world" where
  "import L this backup opts w =
     (if version backup \<noteq> BACKUP_VERSION then (Inl (UnsupportedBackupVersion (version backup)), w)
      else
        let dir = or_else (targetDir opts) (workdir this) in
        (case decrypted_sections L this backup of
           Inl e \<Rightarrow> (Inl e, w)
         | Inr (c, m) \<Rightarrow>
             (case restore_section (overwrite opts) dir c w of
                (Some e, w1) \<Rightarrow> (Inl e, w1)
              | (None, w1) \<Rightarrow>
                  (case restore_section (overwrite opts) dir m w1 of
                     (Some e, w2) \<Rightarrow> (Inl e, w2)
                   | (None, w2) \<Rightarrow>
                       (Inr \<lparr>result_agent = agent backup,
                             restored_credentials = files_length c,
                             restored_memory = files_length m\<rparr>, w2)))))"

subsection \<open>\<open>fingerprint\<close>\<close>


section \<open>Concrete inputs\<close>

text \<open>A small world for evaluating the functions: a working directory \<open>/w\<close> with
  one key file, a target directory \<open>/t\<close> that already holds \<open>existing.md\<close>, and an
  empty directory \<open>/t/new\<close>.\<close>

definition demo_clock :: "nat \<Rightarrow> string" where
  "demo_clock n = ''2026-02-08T02:00:0'' @ [hex_digit (n mod 10)] @ ''.000Z''"

definition demo_world :: world where
  "demo_world =
     \<lparr>nodes = [[''w''] \<mapsto> Dir, [''w'', ''present.key''] \<mapsto> File ''secret123'',
               [''t''] \<mapsto> Dir, [''t'', ''existing.md''] \<mapsto> File ''original content'',
               [''t'', ''new''] \<mapsto> Dir],
      cwd = ''/w'', console = [], clock = demo_clock, ticks = 0,
      entropy = (\<lambda>n. char_of n), drawn = 0\<rparr>"

definition demo_args :: export_args where
  "demo_args =
     \<lparr>args_name = Some ''TestAgent'', args_email = Some ''test@example.com'', args_metadata = [],
      credentialsPaths = [''present.key'', ''missing.key''], memoryPaths = []\<rparr>"

text \<open>An instance that asks for encryption and has no password.\<close>

definition no_password_instance :: agent_backup where
  "no_password_instance = \<lparr>workdir = ''/w'', encryption = True, password = None\<rparr>"

text \<open>An archive marked encrypted, with one section that is and one that is not.\<close>

definition half_encrypted_archive :: archive where
  "half_encrypted_archive =
     \<lparr>version = ''1.0'', exported = ''2026-02-08T02:00:00.000Z'',
      agent = \<lparr>name = Some ''TestAgent'', email = None, metadata = [],
               created = ''2026-02-08T02:00:00.000Z''\<rparr>,
      credentials = Plain (Some [\<lparr>path = ''existing.md'', content = ''new content'',
                                  updated = ''2026-02-08T02:00:00.000Z''\<rparr>]),
      memory = Encrypted \<lparr>algorithm = ''aes-256-gcm'', iv = ''00'', salt = ''00'',
                           authTag = ''00'', data = ''00''\<rparr>,
      platforms = [], encrypted = True\<rparr>"

text \<open>An instance whose working directory is the target directory \<open>/t\<close>, the archive
  of the repository's overwrite test, and an archive whose stored path climbs out of the
  target directory.\<close>

definition target_instance :: agent_backup where
  "target_instance = \<lparr>workdir = ''/t'', encryption = False, password = None\<rparr>"

definition overwrite_test_archive :: archive where
  "overwrite_test_archive =
     \<lparr>version = ''1.0'', exported = ''2026-02-08T02:00:00.000Z'',
      agent = \<lparr>name = Some ''Test'', email = None, metadata = [],
               created = ''2026-02-08T02:00:00.000Z''\<rparr>,
      credentials = Plain (Some []),
      memory = Plain (Some [\<lparr>path = ''existing.md'', content = ''new content'',
                             updated = ''2026-02-08T02:00:00.000Z''\<rparr>]),
      platforms = [], encrypted = False\<rparr>"


subsection \<open>A stand-in library\<close>













definition append_to_salt :: "string \<Rightarrow> file_section \<Rightarrow> file_section" where
  "append_to_salt junk section =
     (case section of Plain fs \<Rightarrow> Plain fs | Encrypted e \<Rightarrow> Encrypted (e\<lparr>salt := salt e @ junk\<rparr>))"



section \<open>Notions the statements use\<close>


text \<open>The records a restoring loop runs over (none where \<open>section.files\<close> is
  missing), and the path \<open>join(dir, file.path)\<close> it computes for one of them.\<close>

definition records :: "file_section \<Rightarrow> file_record list" where
  "records section = (case files section of None \<Rightarrow> [] | Some fs \<Rightarrow> fs)"



text \<open>What is asked of a library for an encrypted archive to be read back: deciphering
  with the key and IV of the encryption returns the plaintext (keys are digests, IVs
  have 16 bytes, as \<open>_encrypt\<close> makes them), and parsing a serialised plain section
  returns it.\<close>

definition lib_ok :: "library \<Rightarrow> bool" where
  "lib_ok L \<longleftrightarrow>
     (\<forall>x iv_bytes plaintext.
        length iv_bytes = 16 \<longrightarrow>
        (case aes_256_gcm_encrypt L (sha256 L x) iv_bytes plaintext of
           (ciphertext, tag) \<Rightarrow>
             aes_256_gcm_decrypt L (sha256 L x) iv_bytes tag ciphertext = Some plaintext))
   \<and> (\<forall>fs. JSON_parse L (JSON_stringify L (Plain (Some fs))) = Some (Plain (Some fs)))"



section \<open>Evaluation and basic facts\<close>

lemmas platform_defs =
  readFile_def fs_key_def isAbsolute_def normalizeString_def node_at_def trailing_slash_def
  resolve_def join_def normalize_def mkdir_recursive_def writeFile_def now_def warn_def
  randomBytes_def

lemmas class_defs =
  export_def collectCredentials_def collectMemory_def import_def decrypted_sections_def
  restore_section_def restore_file_def files_def files_length_def truthy_def or_else_def
  BACKUP_VERSION_def

lemmas demo_defs = demo_world_def demo_clock_def demo_args_def hex_digit_def

text \<open>The collecting loops read only \<open>this.workdir\<close> of the instance.\<close>

lemma collectCredentials_loop_workdir:
  "workdir this' = workdir this \<Longrightarrow>
   collectCredentials_loop this' ps fs w = collectCredentials_loop this ps fs w"
  by (induction this ps fs w rule: collectCredentials_loop.induct)
     (auto split: sum.splits prod.splits)

lemma collectMemory_loop_workdir:
  "workdir this' = workdir this \<Longrightarrow>
   collectMemory_loop this' ps fs w = collectMemory_loop this ps fs w"
  by (induction this ps fs w rule: collectMemory_loop.induct)
     (auto split: sum.splits prod.splits)

text \<open>Where the errors of \<open>import\<close> come from: the decrypting part never reports a
  file-system error, the restoring loops report nothing else.\<close>

lemma decrypted_sections_error:
  "decrypted_sections L this backup = Inl e \<Longrightarrow>
   e \<in> {NoPasswordProvided, TypeError, DecipherError, SyntaxError}"
  by (auto simp: decrypted_sections_def decrypt_def
      split: if_splits sum.splits file_section.splits option.splits)

lemma restore_file_error: "restore_file ov dir f w = (Some e, w') \<Longrightarrow> \<exists>x. e = SystemError x"
  by (auto simp: restore_file_def Let_def split: if_splits prod.splits option.splits)

lemma restore_files_error: "restore_files ov dir fs w = (Some e, w') \<Longrightarrow> \<exists>x. e = SystemError x"
  by (induction fs arbitrary: w) (auto split: prod.splits option.splits dest: restore_file_error)

lemma restore_section_error:
  "restore_section ov dir s w = (Some e, w') \<Longrightarrow> \<exists>x. e = SystemError x"
  by (auto simp: restore_section_def split: option.splits dest: restore_files_error)

section \<open>Export: the password and the name\<close>

text \<open>
  Claim C2 says that an export with encryption requested and no password fails with a
  ConfigurationError and returns no archive. The code's guard is
  \<open>if (this.encryption && this.password)\<close> (``Encrypt if password provided''): without a
  password the branch is skipped and the archive is returned as collected. Here
  \<open>export\<close> is called with \<open>encryption = True\<close>, \<open>password = None\<close>, and returns
  an archive with both sections in plain form.
\<close>

theorem export_no_password_counterexample:
  "\<forall>L. fst (export L no_password_instance demo_args demo_world)
     = \<lparr>version = ''1.0'', exported = ''2026-02-08T02:00:00.000Z'',
        agent = \<lparr>name = Some ''TestAgent'', email = Some ''test@example.com'', metadata = [],
                 created = ''2026-02-08T02:00:01.000Z''\<rparr>,
        credentials = Plain (Some [\<lparr>path = ''present.key'', content = ''secret123'',
                                    updated = ''2026-02-08T02:00:02.000Z''\<rparr>]),
        memory = Plain (Some []), platforms = [], encrypted = False\<rparr>"
  by (simp add: class_defs platform_defs demo_defs no_password_instance_def)

text \<open>
  Claim C2, amended: for every export call in which encryption is requested but the
  password is absent (null or empty), export does not fail: it returns an archive whose
  two sections are in plain form and whose \<open>encrypted\<close> flag is not set, the same
  archive (and the same effects) as an export with encryption not requested.
\<close>

theorem export_without_password_is_plain:
  assumes "encryption this" and "\<not> truthy (password this)"
  shows "\<exists>fs gs. credentials (fst (export L this args w)) = Plain (Some fs)
          \<and> memory (fst (export L this args w)) = Plain (Some gs)
          \<and> \<not> encrypted (fst (export L this args w))
          \<and> export L this args w = export L (this\<lparr>encryption := False\<rparr>) args w"
  using assms
  by (auto simp: export_def collectCredentials_def collectMemory_def Let_def
        collectCredentials_loop_workdir [of "this\<lparr>encryption := False\<rparr>" this]
        collectMemory_loop_workdir [of "this\<lparr>encryption := False\<rparr>" this]
      split: prod.splits option.splits)

theorem export_without_password_is_plain_witness:
  "\<forall>L. encryption (no_password_instance\<lparr>password := Some []\<rparr>)
     \<and> \<not> truthy (password (no_password_instance\<lparr>password := Some []\<rparr>))
     \<and> (\<exists>fs gs.
          credentials (fst (export L (no_password_instance\<lparr>password := Some []\<rparr>)
             demo_args demo_world)) = Plain (Some fs)
        \<and> memory (fst (export L (no_password_instance\<lparr>password := Some []\<rparr>)
             demo_args demo_world)) = Plain (Some gs)
        \<and> \<not> encrypted (fst (export L (no_password_instance\<lparr>password := Some []\<rparr>)
             demo_args demo_world)))"
proof
  fix L
  let ?ab = "no_password_instance\<lparr>password := Some []\<rparr>"
  have h1: "encryption ?ab"
    by (simp add: no_password_instance_def)
  have h2: "\<not> truthy (password ?ab)"
    by (simp add: truthy_def)
  show "encryption ?ab \<and> \<not> truthy (password ?ab)
     \<and> (\<exists>fs gs.
          credentials (fst (export L ?ab demo_args demo_world)) = Plain (Some fs)
        \<and> memory (fst (export L ?ab demo_args demo_world)) = Plain (Some gs)
        \<and> \<not> encrypted (fst (export L ?ab demo_args demo_world)))"
    using h1 h2 export_without_password_is_plain [OF h1 h2, of L demo_args demo_world]
    by blast
qed

text \<open>
  Claim C5 says that an export whose identity has an empty or missing name fails with a
  ValidationError and produces no archive. \<open>export\<close> never looks at \<open>name\<close>: it is
  copied into \<open>agent.name\<close>. Here the name is the empty string, and an archive is
  returned.
\<close>

theorem export_empty_name_counterexample:
  "\<forall>L. fst (export L \<lparr>workdir = ''/w'', encryption = False, password = None\<rparr>
            (demo_args\<lparr>args_name := Some []\<rparr>) demo_world)
     = \<lparr>version = ''1.0'', exported = ''2026-02-08T02:00:00.000Z'',
        agent = \<lparr>name = Some [], email = Some ''test@example.com'', metadata = [],
                 created = ''2026-02-08T02:00:01.000Z''\<rparr>,
        credentials = Plain (Some [\<lparr>path = ''present.key'', content = ''secret123'',
                                    updated = ''2026-02-08T02:00:02.000Z''\<rparr>]),
        memory = Plain (Some []), platforms = [], encrypted = False\<rparr>"
  by (simp add: class_defs platform_defs demo_defs)

text \<open>
  Claim C5, amended: export does not validate the identity: for every name, also an
  empty or a missing one, it returns an archive of version 1.0 whose \<open>agent.name\<close> is
  the name it was given.
\<close>

theorem export_does_not_validate_name:
  "name (agent (fst (export L this args w))) = args_name args
   \<and> version (fst (export L this args w)) = BACKUP_VERSION"
  by (auto simp: export_def Let_def split: prod.splits option.splits)

section \<open>Import: the fatal errors come before the first write\<close>

text \<open>
  Claim C10: import is atomic with respect to its fatal errors. If the version is not
  supported, or the archive is encrypted and no password is set, or decrypting either
  section fails, then import fails with that error and the world it leaves is the world
  it was given: no directory made, no file written, nothing printed. In general, when
  import fails with an error that is not a file-system error, nothing has been written.
\<close>

theorem import_fatal_errors_write_nothing:
  assumes "import L this backup opts w = (r, w')"
  shows "(version backup \<noteq> BACKUP_VERSION \<longrightarrow>
            r = Inl (UnsupportedBackupVersion (version backup)) \<and> w' = w)
       \<and> (version backup = BACKUP_VERSION \<and> encrypted backup \<and> \<not> truthy (password this) \<longrightarrow>
            r = Inl NoPasswordProvided \<and> w' = w)
       \<and> (\<forall>e. version backup = BACKUP_VERSION \<and> encrypted backup \<and> truthy (password this)
              \<and> decrypt L this (credentials backup) = Inl e \<longrightarrow> r = Inl e \<and> w' = w)
       \<and> (\<forall>e c. version backup = BACKUP_VERSION \<and> encrypted backup \<and> truthy (password this)
              \<and> decrypt L this (credentials backup) = Inr c
              \<and> decrypt L this (memory backup) = Inl e \<longrightarrow> r = Inl e \<and> w' = w)
       \<and> (\<forall>e. r = Inl e \<and> (\<forall>x. e \<noteq> SystemError x) \<longrightarrow> w' = w)"
proof -
  have other: "w' = w" if "r = Inl e" and "\<forall>x. e \<noteq> SystemError x" for e
    using assms that
    by (auto simp: import_def Let_def split: if_splits sum.splits prod.splits option.splits
             dest: restore_section_error)
  show ?thesis
    using assms other
    by (auto simp: import_def decrypted_sections_def Let_def split: if_splits)
qed

theorem import_fatal_errors_write_nothing_witness:
  "\<forall>L. import L \<lparr>workdir = ''/t'', encryption = False, password = None\<rparr>
          half_encrypted_archive \<lparr>overwrite = True, targetDir = None\<rparr> demo_world
        = (Inl NoPasswordProvided, demo_world)
     \<and> import L \<lparr>workdir = ''/t'', encryption = False, password = None\<rparr>
          (half_encrypted_archive\<lparr>version := ''2.0''\<rparr>) \<lparr>overwrite = True, targetDir = None\<rparr>
          demo_world
        = (Inl (UnsupportedBackupVersion ''2.0''), demo_world)
     \<and> import L \<lparr>workdir = ''/t'', encryption = False, password = Some ''pw''\<rparr>
          half_encrypted_archive \<lparr>overwrite = True, targetDir = None\<rparr> demo_world
        = (Inl TypeError, demo_world)"
proof (intro allI conjI)
  fix L
  let ?ab = "\<lparr>workdir = ''/t'', encryption = False, password = None\<rparr>"
  let ?opts = "\<lparr>overwrite = True, targetDir = None\<rparr>"
  have a: "version half_encrypted_archive = BACKUP_VERSION \<and> encrypted half_encrypted_archive
     \<and> \<not> truthy (password ?ab)"
    by (simp add: half_encrypted_archive_def BACKUP_VERSION_def truthy_def)
  show "import L ?ab half_encrypted_archive ?opts demo_world = (Inl NoPasswordProvided, demo_world)"
    using a import_fatal_errors_write_nothing
      [where L = L and this = "?ab" and backup = "half_encrypted_archive" and opts = "?opts"
         and w = demo_world, OF surjective_pairing]
    by (metis prod.collapse)
  let ?v2 = "half_encrypted_archive\<lparr>version := ''2.0''\<rparr>"
  have b: "version ?v2 \<noteq> BACKUP_VERSION" "version ?v2 = ''2.0''"
    by (simp_all add: BACKUP_VERSION_def)
  show "import L ?ab ?v2 ?opts demo_world = (Inl (UnsupportedBackupVersion ''2.0''), demo_world)"
    using b import_fatal_errors_write_nothing
      [where L = L and this = "?ab" and backup = "?v2" and opts = "?opts"
         and w = demo_world, OF surjective_pairing]
    by (metis prod.collapse)
  let ?pw = "\<lparr>workdir = ''/t'', encryption = False, password = Some ''pw''\<rparr>"
  have c: "version half_encrypted_archive = BACKUP_VERSION \<and> encrypted half_encrypted_archive
     \<and> truthy (password ?pw)
     \<and> decrypt L ?pw (credentials half_encrypted_archive) = Inl TypeError"
    by (simp add: half_encrypted_archive_def BACKUP_VERSION_def truthy_def decrypt_def)
  show "import L ?pw half_encrypted_archive ?opts demo_world = (Inl TypeError, demo_world)"
    using c import_fatal_errors_write_nothing
      [where L = L and this = "?pw" and backup = "half_encrypted_archive" and opts = "?opts"
         and w = demo_world, OF surjective_pairing]
    by (metis prod.collapse)
qed

section \<open>The collector\<close>






section \<open>Facts about the file system\<close>

lemma lookup_Inr_iff:
  "lookup m pre ks = Inr n \<longleftrightarrow>
     (\<forall>i<length ks. node_at m (pre @ take i ks) = Some Dir) \<and> node_at m (pre @ ks) = Some n"
proof (induction ks arbitrary: pre)
  case Nil
  then show ?case by (auto split: option.splits)
next
  case (Cons k ks)
  have *: "(\<forall>i<length (k # ks). node_at m (pre @ take i (k # ks)) = Some Dir)
      \<longleftrightarrow> node_at m pre = Some Dir \<and> (\<forall>i<length ks. node_at m ((pre @ [k]) @ take i ks) = Some Dir)"
    (is "?L \<longleftrightarrow> ?R")
  proof
    assume l: ?L
    have "node_at m pre = Some Dir" using l [rule_format, of 0] by simp
    moreover have "node_at m ((pre @ [k]) @ take i ks) = Some Dir" if "i < length ks" for i
      using l [rule_format, of "Suc i"] that by simp
    ultimately show ?R by blast
  next
    assume r: ?R
    show ?L
    proof (intro allI impI)
      fix i assume "i < length (k # ks)"
      then show "node_at m (pre @ take i (k # ks)) = Some Dir"
        using r by (cases i) auto
    qed
  qed
  show ?case
    by (simp only: *) (auto simp: Cons.IH split: option.splits node.splits)
qed


lemma mkdirs_map_le: "mkdirs m pre ks = (r, m') \<Longrightarrow> m \<subseteq>\<^sub>m m'"
proof (induction ks arbitrary: m pre)
  case Nil
  then show ?case by simp
next
  case (Cons k ks)
  show ?case
  proof (cases "node_at m (pre @ [k])")
    case None
    then have mk: "m (pre @ [k]) = None" by (simp add: node_at_def)
    from Cons.prems None have "mkdirs (m(pre @ [k] \<mapsto> Dir)) (pre @ [k]) ks = (r, m')" by simp
    from Cons.IH [OF this] have "m(pre @ [k] \<mapsto> Dir) \<subseteq>\<^sub>m m'" .
    moreover have "m \<subseteq>\<^sub>m m(pre @ [k] \<mapsto> Dir)" using mk by (auto simp: map_le_def)
    ultimately show ?thesis by (rule map_le_trans [rotated])
  next
    case (Some x)
    with Cons show ?thesis by (cases x) auto
  qed
qed

lemma mkdirs_only_dirs:
  "mkdirs m pre ks = (r, m') \<Longrightarrow> m' k = Some (File c) \<Longrightarrow> m k = Some (File c)"
proof (induction ks arbitrary: m pre)
  case Nil
  then show ?case by simp
next
  case (Cons a ks)
  show ?case
  proof (cases "node_at m (pre @ [a])")
    case None
    from Cons.prems None have "mkdirs (m(pre @ [a] \<mapsto> Dir)) (pre @ [a]) ks = (r, m')" by simp
    from Cons.IH [OF this Cons.prems(2)] show ?thesis by (auto split: if_splits)
  next
    case (Some x)
    with Cons show ?thesis by (cases x) auto
  qed
qed

lemma mkdirs_success:
  "mkdirs m pre ks = (None, m') \<Longrightarrow> node_at m pre = Some Dir \<Longrightarrow>
     \<forall>i\<le>length ks. node_at m' (pre @ take i ks) = Some Dir"
proof (induction ks arbitrary: m pre)
  case Nil
  then show ?case by simp
next
  case (Cons a ks)
  have pre': "node_at m' pre = Some Dir"
    using mkdirs_map_le [OF Cons.prems(1)] Cons.prems(2)
    by (auto simp: node_at_def map_le_def dom_def split: if_splits)
  show ?case
  proof (cases "node_at m (pre @ [a])")
    case None
    from Cons.prems None have s: "mkdirs (m(pre @ [a] \<mapsto> Dir)) (pre @ [a]) ks = (None, m')" by simp
    have "node_at (m(pre @ [a] \<mapsto> Dir)) (pre @ [a]) = Some Dir" by (simp add: node_at_def)
    from Cons.IH [OF s this] have ih: "\<forall>i\<le>length ks. node_at m' ((pre @ [a]) @ take i ks) = Some Dir" .
    show ?thesis
    proof (intro allI impI)
      fix i assume "i \<le> length (a # ks)"
      then show "node_at m' (pre @ take i (a # ks)) = Some Dir"
        using ih pre' by (cases i) auto
    qed
  next
    case (Some x)
    show ?thesis
    proof (cases x)
      case (File c)
      with Some Cons.prems show ?thesis by simp
    next
      case Dir
      with Some Cons.prems have s: "mkdirs m (pre @ [a]) ks = (None, m')" by simp
      from Cons.IH [OF s] Some Dir have ih: "\<forall>i\<le>length ks. node_at m' ((pre @ [a]) @ take i ks) = Some Dir"
        by simp
      show ?thesis
      proof (intro allI impI)
        fix i assume "i \<le> length (a # ks)"
        then show "node_at m' (pre @ take i (a # ks)) = Some Dir"
          using ih pre' by (cases i) auto
      qed
    qed
  qed
qed


lemma readFile_Inr_iff:
  "readFile w p = Inr c \<longleftrightarrow>
     p \<noteq> [] \<and> \<not> trailing_slash p \<and> lookup (nodes w) [] (fs_key w p) = Inr (File c)"
  by (auto simp: readFile_def split: sum.splits node.splits)


lemma writeFile_None:
  assumes "writeFile p d w = (None, w')"
  shows "p \<noteq> []" and "\<not> trailing_slash p" and "fs_key w p \<noteq> []"
    and "lookup (nodes w) [] (butlast (fs_key w p)) = Inr Dir"
    and "nodes w (fs_key w p) \<noteq> Some Dir"
    and "w' = w\<lparr>nodes := (nodes w)(fs_key w p \<mapsto> File d)\<rparr>"
  using assms
  by (auto simp: writeFile_def Let_def split: if_splits sum.splits node.splits option.splits)

lemma node_at_upd:
  "k \<noteq> [] \<Longrightarrow> node_at (m(k \<mapsto> v)) j = (if j = k then Some v else node_at m j)"
  by (simp add: node_at_def)

lemma take_butlast_eq: "i < length k \<Longrightarrow> take i (butlast k) = take i k"
  by (simp add: take_butlast)

lemma lookup_after_write:
  assumes par: "lookup m [] (butlast k) = Inr Dir" and ne: "k \<noteq> []"
  shows "lookup (m(k \<mapsto> File d)) [] k = Inr (File d)"
proof -
  have pre: "node_at m (take i k) = Some Dir" if "i < length k" for i
  proof (cases "i < length (butlast k)")
    case True
    with par have "node_at m (take i (butlast k)) = Some Dir"
      by (simp add: lookup_Inr_iff)
    with that show ?thesis by (simp add: take_butlast)
  next
    case False
    with that have "i = length k - 1" by simp
    then have "take i k = butlast k" by (simp add: butlast_conv_take)
    with par show ?thesis by (simp add: lookup_Inr_iff)
  qed
  have "node_at (m(k \<mapsto> File d)) (take i k) = Some Dir" if "i < length k" for i
  proof -
    have "take i k \<noteq> k" using that by (metis length_take min.absorb2 nat_less_le order_less_imp_le)
    with pre [OF that] show ?thesis by (simp add: node_at_upd [OF ne])
  qed
  moreover have "node_at (m(k \<mapsto> File d)) k = Some (File d)"
    by (simp add: node_at_upd [OF ne])
  ultimately show ?thesis by (simp add: lookup_Inr_iff)
qed

lemma read_after_write:
  assumes "writeFile p d w = (None, w')"
  shows "readFile w' p = Inr d"
proof -
  note h = writeFile_None [OF assms]
  have "fs_key w' p = fs_key w p" using h(6) by (simp add: fs_key_def)
  moreover have "lookup (nodes w') [] (fs_key w p) = Inr (File d)"
    using lookup_after_write [OF h(4) h(3)] h(6) by simp
  ultimately show ?thesis using h(1,2) by (simp add: readFile_Inr_iff)
qed







section \<open>Import: what the restoring loops do\<close>


lemma files_length_records: "files_length s = length (records s)"
  by (simp add: files_length_def records_def split: option.splits)





lemma restore_file_overwrite_written:
  assumes "restore_file True dir f w = (None, w')"
  shows "readFile w' (join dir (path f)) = Inr (content f)"
  using assms
  by (auto simp: restore_file_def Let_def split: prod.splits option.splits
      intro: read_after_write)


lemma restore_files_overwrite_path_ok:
  "restore_files True dir fs w = (None, w') \<Longrightarrow> f \<in> set fs \<Longrightarrow>
   join dir (path f) \<noteq> [] \<and> \<not> trailing_slash (join dir (path f))"
proof (induction fs arbitrary: w)
  case Nil
  then show ?case by simp
next
  case (Cons g fs)
  obtain r1 w1 where s: "restore_file True dir g w = (r1, w1)"
    by (cases "restore_file True dir g w")
  with Cons.prems(1) have r1: "r1 = None" and rest: "restore_files True dir fs w1 = (None, w')"
    by (auto split: option.splits)
  show ?case
  proof (cases "f = g")
    case True
    from restore_file_overwrite_written [OF s [unfolded r1]] True show ?thesis
      by (simp add: readFile_Inr_iff)
  next
    case False
    with Cons.prems(2) have "f \<in> set fs" by simp
    from Cons.IH [OF rest this] show ?thesis .
  qed
qed



section \<open>Import: stored paths are followed as they are\<close>




section \<open>Import: the counts of the summary\<close>

text \<open>
  Claim C4 says that the counts of the summary are the numbers of files written. The
  summary's \<open>restored\<close> is \<open>credentials.files?.length || 0\<close> and
  \<open>memory.files?.length || 0\<close>: the lengths of the archive's lists, whatever the loops
  did. In the repository's overwrite test (\<open>existing.md\<close> exists, \<open>overwrite\<close>
  false) the record is skipped, no file is written, and the summary still says one
  memory file was restored.
\<close>

theorem import_counts_skipped_file:
  "\<forall>L. import L target_instance overwrite_test_archive \<lparr>overwrite = False, targetDir = None\<rparr>
          demo_world
     = (Inr \<lparr>result_agent = agent overwrite_test_archive,
             restored_credentials = 0, restored_memory = 1\<rparr>,
        demo_world\<lparr>console := [SkippingExistingFile ''existing.md'']\<rparr>)"
  by (simp add: class_defs platform_defs demo_defs target_instance_def overwrite_test_archive_def)

section \<open>The fingerprint\<close>




section \<open>Hexadecimal text, the stand-in library\<close>

lemma unhex_hex_digits: "\<forall>n\<in>set [0..<16]. unhex (hex_digit n) = Some n"
  by code_simp

lemma unhex_hex_digit: "n < 16 \<Longrightarrow> unhex (hex_digit n) = Some n"
  using unhex_hex_digits by simp

lemma Buffer_from_hex_toString_hex_append:
  "Buffer_from_hex (toString_hex buf @ rest) = buf @ Buffer_from_hex rest"
proof (induction buf)
  case Nil
  then show ?case by (simp add: toString_hex_def)
next
  case (Cons c buf)
  have lt: "(of_char c :: nat) div 16 < 16" "(of_char c :: nat) mod 16 < 16"
    using nat_of_char_less_256 [of c] by arith+
  have "char_of (16 * ((of_char c :: nat) div 16) + of_char c mod 16) = c"
    by simp
  with Cons show ?case
    by (simp add: toString_hex_def unhex_hex_digit [OF lt(1)] unhex_hex_digit [OF lt(2)])
qed

lemma Buffer_from_hex_toString_hex: "Buffer_from_hex (toString_hex buf) = buf"
  using Buffer_from_hex_toString_hex_append [of buf "[]"] by simp








lemma Buffer_from_hex_junk: "Buffer_from_hex (toString_hex buf @ ''zz'') = buf"
  by (simp add: Buffer_from_hex_toString_hex_append unhex_def)

lemma encrypt_shape:
  "\<exists>e. fst (encrypt L this section w) = Encrypted e
       \<and> salt e = toString_hex (map (entropy w) [drawn w + 16..<drawn w + 16 + 32])
       \<and> iv e = toString_hex (map (entropy w) [drawn w..<drawn w + 16])
       \<and> (case aes_256_gcm_encrypt L
                 (deriveKey L (password_text this) (map (entropy w) [drawn w + 16..<drawn w + 16 + 32]))
                 (map (entropy w) [drawn w..<drawn w + 16]) (JSON_stringify L section) of
             (ciphertext, tag) \<Rightarrow> authTag e = toString_hex tag \<and> data e = toString_hex ciphertext)"
  by (simp add: encrypt_def randomBytes_def split: prod.splits)

lemma decrypt_encrypt:
  assumes ok: "lib_ok L" and pw: "password_text that = password_text this"
  shows "decrypt L that (fst (encrypt L this (Plain (Some fs)) w)) = Inr (Plain (Some fs))"
    and "decrypt L that (append_to_salt ''zz'' (fst (encrypt L this (Plain (Some fs)) w)))
           = Inr (Plain (Some fs))"
proof -
  let ?s = "map (entropy w) [drawn w + 16..<drawn w + 16 + 32]"
  let ?i = "map (entropy w) [drawn w..<drawn w + 16]"
  let ?k = "deriveKey L (password_text this) ?s"
  obtain e where e: "fst (encrypt L this (Plain (Some fs)) w) = Encrypted e"
    and s: "salt e = toString_hex ?s" and i: "iv e = toString_hex ?i"
    and c: "case aes_256_gcm_encrypt L ?k ?i (JSON_stringify L (Plain (Some fs))) of
             (ciphertext, tag) \<Rightarrow> authTag e = toString_hex tag \<and> data e = toString_hex ciphertext"
    using encrypt_shape [of L this "Plain (Some fs)" w] by (elim exE conjE) (rule that)
  obtain ct tag where enc: "aes_256_gcm_encrypt L ?k ?i (JSON_stringify L (Plain (Some fs))) = (ct, tag)"
    by (cases "aes_256_gcm_encrypt L ?k ?i (JSON_stringify L (Plain (Some fs)))")
  with c have t: "authTag e = toString_hex tag" and d: "data e = toString_hex ct" by simp_all
  have len: "length ?i = 16" by simp
  have "aes_256_gcm_decrypt L ?k ?i tag ct = Some (JSON_stringify L (Plain (Some fs)))"
    using ok [unfolded lib_ok_def, THEN conjunct1, rule_format, OF len,
        of "password_text this @ toString_hex ?s" "JSON_stringify L (Plain (Some fs))"] enc
    by (simp add: deriveKey_def)
  moreover have "JSON_parse L (JSON_stringify L (Plain (Some fs))) = Some (Plain (Some fs))"
    using ok by (simp add: lib_ok_def)
  ultimately show "decrypt L that (fst (encrypt L this (Plain (Some fs)) w)) = Inr (Plain (Some fs))"
    and "decrypt L that (append_to_salt ''zz'' (fst (encrypt L this (Plain (Some fs)) w)))
           = Inr (Plain (Some fs))"
    by (simp_all add: e decrypt_def append_to_salt_def s i t d pw
        Buffer_from_hex_toString_hex Buffer_from_hex_junk)
qed

section \<open>Export and import with a password\<close>

lemma export_plain_sections:
  "\<exists>fs gs. credentials (fst (export L (this\<lparr>encryption := False\<rparr>) args w)) = Plain (Some fs)
         \<and> memory (fst (export L (this\<lparr>encryption := False\<rparr>) args w)) = Plain (Some gs)"
  by (auto simp: export_def collectCredentials_def collectMemory_def Let_def
      split: prod.splits option.splits)

lemma export_fields:
  "version (fst (export L this args w)) = BACKUP_VERSION"
  "encrypted (fst (export L this args w)) \<longleftrightarrow> encryption this \<and> truthy (password this)"
  "agent (fst (export L this args w)) = agent (fst (export L (this\<lparr>encryption := False\<rparr>) args w))"
  by (auto simp: export_def Let_def split: prod.splits option.splits)

lemma export_encrypted_sections:
  assumes "encryption this" and "truthy (password this)"
  shows "\<exists>w4 w5.
      credentials (fst (export L this args w))
        = fst (encrypt L this (credentials (fst (export L (this\<lparr>encryption := False\<rparr>) args w))) w4)
    \<and> memory (fst (export L this args w))
        = fst (encrypt L this (memory (fst (export L (this\<lparr>encryption := False\<rparr>) args w))) w5)"
proof -
  have c: "collectCredentials (this\<lparr>encryption := False\<rparr>) ps v = collectCredentials this ps v" for ps v
    by (simp add: collectCredentials_def
        collectCredentials_loop_workdir [of "this\<lparr>encryption := False\<rparr>" this])
  have m: "collectMemory (this\<lparr>encryption := False\<rparr>) ps v = collectMemory this ps v" for ps v
    by (simp add: collectMemory_def
        collectMemory_loop_workdir [of "this\<lparr>encryption := False\<rparr>" this])
  show ?thesis
    using assms
    by (auto simp: export_def c m Let_def split_beta split: option.splits)
qed

text \<open>What \<open>import\<close> gets out of an exported archive, with the exporter's password where
  the archive is encrypted: the two sections as they were collected.\<close>

lemma export_decrypted_sections:
  assumes ok: "encryption this \<and> truthy (password this) \<longrightarrow>
      lib_ok L \<and> truthy (password that) \<and> password_text that = password_text this"
  shows "decrypted_sections L that (fst (export L this args w))
       = Inr (credentials (fst (export L (this\<lparr>encryption := False\<rparr>) args w)),
              memory (fst (export L (this\<lparr>encryption := False\<rparr>) args w)))"
proof (cases "encryption this \<and> truthy (password this)")
  case False
  then have "export L this args w = export L (this\<lparr>encryption := False\<rparr>) args w"
    by (auto simp: export_def Let_def
        collectCredentials_def collectMemory_def
        collectCredentials_loop_workdir [of "this\<lparr>encryption := False\<rparr>" this]
        collectMemory_loop_workdir [of "this\<lparr>encryption := False\<rparr>" this]
        split: prod.splits option.splits)
  moreover have "\<not> encrypted (fst (export L (this\<lparr>encryption := False\<rparr>) args w))"
    by (simp add: export_fields(2))
  ultimately show ?thesis
    by (simp add: decrypted_sections_def)
next
  case True
  with ok have lib: "lib_ok L" and tr: "truthy (password that)"
    and pw: "password_text that = password_text this" by simp_all
  obtain fs gs where
    p: "credentials (fst (export L (this\<lparr>encryption := False\<rparr>) args w)) = Plain (Some fs)"
       "memory (fst (export L (this\<lparr>encryption := False\<rparr>) args w)) = Plain (Some gs)"
    using export_plain_sections [of L this args w] by (elim exE conjE) (rule that)
  from True have t: "encryption this" "truthy (password this)" by simp_all
  obtain w4 w5 where
    e: "credentials (fst (export L this args w)) = fst (encrypt L this (Plain (Some fs)) w4)"
       "memory (fst (export L this args w)) = fst (encrypt L this (Plain (Some gs)) w5)"
    using export_encrypted_sections [OF t, of L args w] unfolding p by (elim exE conjE) (rule that)
  have "encrypted (fst (export L this args w))"
    using True by (simp add: export_fields(2))
  then show ?thesis
    by (simp add: decrypted_sections_def tr e p decrypt_encrypt(1) [OF lib pw])
qed







end
